theory Spec2Isabelle
  imports Main "HOL-Library.Word" "HOL-Library.Char_ord" "HOL-Library.List_Lexorder"
begin

unbundle bit_operations_syntax

section \<open>The credential store of package accesstoken\<close>

text \<open>
  The Go package \<^verbatim>\<open>accesstoken\<close> keeps access tokens in a key-value database
  (\<^verbatim>\<open>dbm.DB\<close>). Its four methods \<^verbatim>\<open>Create\<close>, \<^verbatim>\<open>Check\<close>, \<^verbatim>\<open>List\<close> and
  \<^verbatim>\<open>Delete\<close> are embedded below as functions that take the database and return the
  database after the call together with the Go result tuple. Go strings and byte slices
  that hold text (database keys, JSON values) are \<open>string\<close>, a list of 8-bit characters;
  the secret and its hash are lists of bytes.
\<close>

subsection \<open>Bytes, fixed-width buffers and hexadecimal text\<close>

type_synonym byte = "8 word"

definition tokenSize :: nat where
  "tokenSize = 32"

definition defGenericPageSize :: int where
  "defGenericPageSize = 100"

text \<open>
  Go's built-in \<^verbatim>\<open>copy(dst, src)\<close> overwrites the first \<open>min (len dst) (len src)\<close>
  elements of \<open>dst\<close> and leaves the rest of \<open>dst\<close> as it was.
\<close>

definition go_copy :: "'a list \<Rightarrow> 'a list \<Rightarrow> 'a list" where
  "go_copy dst src =
     (let n = min (length dst) (length src) in take n src @ drop n dst)"

text \<open>\<^verbatim>\<open>var buf [tokenSize]byte\<close>: a zeroed array of 32 bytes.\<close>

definition zero_buf :: "byte list" where
  "zero_buf = replicate tokenSize 0"

text \<open>
  The verb \<^verbatim>\<open>%x\<close> of package fmt on a byte array or slice: two lower-case hexadecimal
  digits per byte, the high nibble first (\<^verbatim>\<open>digits[c>>4]\<close>, \<^verbatim>\<open>digits[c&0xF]\<close>).
\<close>

definition ldigits :: string where
  "ldigits = ''0123456789abcdef''"

definition fmt_x_byte :: "byte \<Rightarrow> string" where
  "fmt_x_byte c = [ldigits ! unat (drop_bit 4 c), ldigits ! unat (c AND 0xF)]"

definition fmt_x :: "byte list \<Rightarrow> string" where
  "fmt_x bs = concat (map fmt_x_byte bs)"

text \<open>\<^verbatim>\<open>fmt.Sprintf("%s:%x", id, bytes)\<close>.\<close>

definition Sprintf_s_x :: "string \<Rightarrow> byte list \<Rightarrow> string" where
  "Sprintf_s_x s bs = s @ '':'' @ fmt_x bs"

text \<open>
  What a holder of the issuance string does to get the secret back: package hex's
  \<^verbatim>\<open>DecodeString\<close> on the text after \<^verbatim>\<open><id>:\<close>. A character that is no
  hexadecimal digit, or an odd number of characters, is an error (\<open>None\<close>).
\<close>

definition fromHexChar :: "char \<Rightarrow> byte option" where
  "fromHexChar c =
     (let n = (of_char c :: nat) in
      if 48 \<le> n \<and> n \<le> 57 then Some (of_nat (n - 48))
      else if 97 \<le> n \<and> n \<le> 102 then Some (of_nat (n - 97 + 10))
      else if 65 \<le> n \<and> n \<le> 70 then Some (of_nat (n - 65 + 10))
      else None)"

fun hex_DecodeString :: "string \<Rightarrow> byte list option" where
  "hex_DecodeString [] = Some []"
| "hex_DecodeString [a] = None"
| "hex_DecodeString (a # b # cs) =
     (case (fromHexChar a, fromHexChar b) of
        (Some h, Some l) \<Rightarrow>
          (case hex_DecodeString cs of
             None \<Rightarrow> None
           | Some bs \<Rightarrow> Some ((push_bit 4 h OR l) # bs))
      | _ \<Rightarrow> None)"

definition secret_of_issuance :: "string \<Rightarrow> string \<Rightarrow> byte list option" where
  "secret_of_issuance ident issued = hex_DecodeString (drop (length ident + 1) issued)"

subsection \<open>Identifiers\<close>

text \<open>
  \<^verbatim>\<open>validIDRegexp = regexp.MustCompile(`^[\w-]+$`)\<close>. In Go's regexp syntax \<^verbatim>\<open>\w\<close>
  is the ASCII class \<^verbatim>\<open>[0-9A-Za-z_]\<close>, and without the multi-line flag \<^verbatim>\<open>^\<close> and
  \<^verbatim>\<open>$\<close> match only at the two ends of the text, so \<^verbatim>\<open>MatchString\<close> holds exactly
  when the text is not empty and each of its bytes is in the class or is a hyphen.
\<close>

definition perl_word_char :: "char \<Rightarrow> bool" where
  "perl_word_char c =
     ((CHR ''0'' \<le> c \<and> c \<le> CHR ''9'') \<or> (CHR ''A'' \<le> c \<and> c \<le> CHR ''Z'')
      \<or> (CHR ''a'' \<le> c \<and> c \<le> CHR ''z'') \<or> c = CHR ''_'')"

definition validIDRegexp_MatchString :: "string \<Rightarrow> bool" where
  "validIDRegexp_MatchString s =
     (s \<noteq> [] \<and> list_all (\<lambda>c. perl_word_char c \<or> c = CHR ''-'') s)"

text \<open>
  The pattern as the specification writes it, \<^verbatim>\<open>^[A-Za-z0-9_-]+$\<close>: at least one
  character, each one an ASCII letter, a digit, an underscore or a hyphen.
\<close>

definition spec_id_alphabet :: string where
  "spec_id_alphabet =
     ''ABCDEFGHIJKLMNOPQRSTUVWXYZabcdefghijklmnopqrstuvwxyz0123456789_-''"

definition spec_id_pattern :: "string \<Rightarrow> bool" where
  "spec_id_pattern s = (1 \<le> length s \<and> (\<forall>c \<in> set s. c \<in> set spec_id_alphabet))"

subsection \<open>Errors\<close>

text \<open>
  The package's own error values and the two that \<^verbatim>\<open>List\<close> makes with
  \<^verbatim>\<open>errors.New\<close>. \<^verbatim>\<open>errors.WithDetailf\<close> only attaches a message to its root
  error, which is what a caller compares; the message is left out. An error that comes
  from another package (encoding/json, crypto/rand) is \<open>Foreign\<close> with its text: no
  such package can return one of this package's values.
\<close>

datatype error =
    ErrBadID
  | ErrDuplicateID
  | ErrBadType
  | ErrNoMatchID
  | Invalid_after
  | No_access_token
  | Foreign string

subsection \<open>The database\<close>

text \<open>
  \<^verbatim>\<open>dbm.DB\<close> is an interface of another repository: \<^verbatim>\<open>Get\<close> (nil when the key is
  absent), \<^verbatim>\<open>Set\<close>, \<^verbatim>\<open>Delete\<close> and \<^verbatim>\<open>Iterator\<close>. The model keeps the
  entries as a list in iteration order, which for the LevelDB backend is the ascending
  order of the keys, and records every call made on the handle in \<open>calls\<close>, so that
  "the database was not touched" can be stated.
\<close>

datatype db_call =
    Call_Get string
  | Call_Set string string
  | Call_Delete string
  | Call_Iterator

record DB =
  entries :: "(string \<times> string) list"
  calls :: "db_call list"

definition DB_Get :: "string \<Rightarrow> DB \<Rightarrow> string option \<times> DB" where
  "DB_Get k db = (map_of (entries db) k, db\<lparr>calls := calls db @ [Call_Get k]\<rparr>)"

definition DB_Set :: "string \<Rightarrow> string \<Rightarrow> DB \<Rightarrow> DB" where
  "DB_Set k v db =
     db\<lparr>entries := insort_key fst (k, v) (filter (\<lambda>e. fst e \<noteq> k) (entries db)),
        calls := calls db @ [Call_Set k v]\<rparr>"

definition DB_Delete :: "string \<Rightarrow> DB \<Rightarrow> DB" where
  "DB_Delete k db =
     db\<lparr>entries := filter (\<lambda>e. fst e \<noteq> k) (entries db),
        calls := calls db @ [Call_Delete k]\<rparr>"

text \<open>\<^verbatim>\<open>Iterator\<close> hands out the entries still to be visited.\<close>

definition DB_Iterator :: "DB \<Rightarrow> (string \<times> string) list \<times> DB" where
  "DB_Iterator db = (entries db, db\<lparr>calls := calls db @ [Call_Iterator]\<rparr>)"

subsection \<open>Collaborators from other packages\<close>

text \<open>
  The token record, as the struct \<^verbatim>\<open>Token\<close>; \<^verbatim>\<open>Created\<close> is a time stamp, here
  nanoseconds since the epoch.
\<close>

record Token =
  ID :: string
  Token :: string
  Type :: string
  Created :: int

text \<open>
  encoding/json and the SHA3-256 pool are not part of the package; they are parameters
  of the model. \<open>json_Marshal_string\<close> is \<^verbatim>\<open>json.Marshal\<close> on a Go string,
  \<open>json_Marshal_Token\<close> on a \<^verbatim>\<open>*Token\<close>, \<open>json_Unmarshal_Token\<close> is
  \<^verbatim>\<open>json.Unmarshal\<close> into a zeroed \<^verbatim>\<open>Token\<close>; each returns the error text on
  the left. \<open>Sum256\<close> gives the 32 bytes that \<^verbatim>\<open>sha3pool.Sum256\<close> writes into its
  output buffer.
\<close>

record collaborators =
  json_Marshal_string :: "string \<Rightarrow> string + string"
  json_Marshal_Token :: "Token \<Rightarrow> string + string"
  json_Unmarshal_Token :: "string \<Rightarrow> string + Token"
  Sum256 :: "byte list \<Rightarrow> byte list"

text \<open>
  \<^verbatim>\<open>rand.Read(b)\<close> of crypto/rand is \<^verbatim>\<open>io.ReadFull(rand.Reader, b)\<close>: it reads
  until \<open>b\<close> is full or the source stops, and on return \<open>n = len b\<close> exactly when the
  error is nil. The source, as one call sees it, is the bytes it has to give and the
  error the read ends with once they are used up (the source's own error, or
  \<^verbatim>\<open>io.EOF\<close> and \<^verbatim>\<open>io.ErrUnexpectedEOF\<close> when it just ends). A source with enough
  bytes never shows its error.
\<close>

record rand_source =
  produced :: "byte list"
  failure :: string

definition rand_Read :: "rand_source \<Rightarrow> byte list \<Rightarrow> byte list \<times> int \<times> string option" where
  "rand_Read r p =
     (let n = min (length p) (length (produced r))
      in (go_copy p (produced r), int n,
          if n = length p then None else Some (failure r)))"

subsection \<open>Create, Check and Delete\<close>

text \<open>
  \<^verbatim>\<open>Create\<close> returns \<^verbatim>\<open>(*string, error)\<close>; either component can be nil, so the
  result is a pair of options. The error of the first \<^verbatim>\<open>json.Marshal(id)\<close> is
  overwritten before it is read; its key is nil (the empty slice) when it fails.
  \<open>now\<close> is what \<^verbatim>\<open>time.Now()\<close> returns.
\<close>

definition Create ::
  "collaborators \<Rightarrow> rand_source \<Rightarrow> int \<Rightarrow> string \<Rightarrow> string \<Rightarrow> DB
     \<Rightarrow> DB \<times> string option \<times> error option" where
  "Create c rnd now ident typ db =
     (if \<not> validIDRegexp_MatchString ident then (db, None, Some ErrBadID)
      else
        let k = (case json_Marshal_string c ident of Inl e \<Rightarrow> [] | Inr k \<Rightarrow> k);
            (v, db1) = DB_Get k db
        in if v \<noteq> None then (db1, None, Some ErrDuplicateID)
           else
             let (secret, n, err) = rand_Read rnd zero_buf
             in if err \<noteq> None \<or> n \<noteq> int tokenSize then (db1, None, map_option Foreign err)
                else
                  let hashedSecret = Sum256 c secret;
                      token = \<lparr>ID = ident, Token = Sprintf_s_x ident hashedSecret,
                               Type = typ, Created = now\<rparr>
                  in case json_Marshal_string c ident of
                       Inl e \<Rightarrow> (db1, None, Some (Foreign e))
                     | Inr key \<Rightarrow>
                         (case json_Marshal_Token c token of
                            Inl e \<Rightarrow> (db1, None, Some (Foreign e))
                          | Inr val \<Rightarrow>
                              (DB_Set key val db1, Some (Sprintf_s_x ident secret), None)))"

text \<open>
  \<^verbatim>\<open>Check\<close> returns \<^verbatim>\<open>(bool, error)\<close>. \<^verbatim>\<open>strings.Compare(a, b) == 0\<close> is
  equality of the two strings.
\<close>

definition Check ::
  "collaborators \<Rightarrow> string \<Rightarrow> byte list \<Rightarrow> DB \<Rightarrow> DB \<times> bool \<times> error option" where
  "Check c ident secret db =
     (if \<not> validIDRegexp_MatchString ident then (db, False, Some ErrBadID)
      else
        let toHash = go_copy zero_buf secret;
            hashed = Sum256 c toHash;
            inToken = Sprintf_s_x ident hashed
        in case json_Marshal_string c ident of
             Inl e \<Rightarrow> (db, False, Some (Foreign e))
           | Inr k \<Rightarrow>
               (let (val, db1) = DB_Get k db
                in (case val of
                      None \<Rightarrow> (db1, False, Some ErrNoMatchID)
                    | Some v \<Rightarrow>
                        (case json_Unmarshal_Token c v of
                           Inl e \<Rightarrow> (db1, False, Some (Foreign e))
                         | Inr token \<Rightarrow>
                             if Token token = inToken then (db1, True, None)
                             else (db1, False, None)))))"

definition Delete :: "collaborators \<Rightarrow> string \<Rightarrow> DB \<Rightarrow> DB \<times> error option" where
  "Delete c ident db =
     (if \<not> validIDRegexp_MatchString ident then (db, Some ErrBadID)
      else case json_Marshal_string c ident of
             Inl e \<Rightarrow> (db, Some (Foreign e))
           | Inr k \<Rightarrow> (DB_Delete k db, None))"

text \<open>
  The framing the specification describes for \<^verbatim>\<open>Check\<close>: a secret shorter than 32
  bytes is followed by zero bytes up to 32, a longer one is cut after its first 32.
\<close>

definition frame32 :: "byte list \<Rightarrow> byte list" where
  "frame32 s = (if length s < 32 then s @ replicate (32 - length s) 0 else take 32 s)"

subsection \<open>Decimal text and machine integers\<close>

text \<open>
  Go's \<^verbatim>\<open>int\<close> is 64 bits wide here; a sum that leaves the range wraps around in
  two's complement. Integers are modelled as \<open>int\<close> with the wrap written out.
\<close>

definition wrap64 :: "int \<Rightarrow> int" where
  "wrap64 x = (x + 2 ^ 63) mod 2 ^ 64 - 2 ^ 63"

definition in_int64 :: "int \<Rightarrow> bool" where
  "in_int64 x = (- (2 ^ 63) \<le> x \<and> x < 2 ^ 63)"

definition digit_of_char :: "char \<Rightarrow> nat option" where
  "digit_of_char c = (if CHR ''0'' \<le> c \<and> c \<le> CHR ''9'' then Some (of_char c - 48) else None)"

fun parse_digits :: "string \<Rightarrow> nat \<Rightarrow> nat option" where
  "parse_digits [] acc = Some acc"
| "parse_digits (c # cs) acc =
     (case digit_of_char c of
        None \<Rightarrow> None
      | Some d \<Rightarrow> parse_digits cs (10 * acc + d))"

text \<open>
  \<^verbatim>\<open>strconv.Atoi\<close>: an optional sign, then at least one decimal digit and nothing
  else; a value outside the 64-bit range is an error as well.
\<close>

definition Atoi :: "string \<Rightarrow> string + int" where
  "Atoi s =
     (let (neg, ds) =
            (case s of
               [] \<Rightarrow> (False, [])
             | c # cs \<Rightarrow>
                 if c = CHR ''-'' then (True, cs)
                 else if c = CHR ''+'' then (False, cs)
                 else (False, s))
      in if ds = [] then Inl ''invalid syntax''
         else case parse_digits ds 0 of
                None \<Rightarrow> Inl ''invalid syntax''
              | Some n \<Rightarrow>
                  let v = (if neg then - int n else int n)
                  in if in_int64 v then Inr v else Inl ''value out of range'')"

text \<open>\<^verbatim>\<open>strconv.Itoa\<close>: the decimal digits, after a minus sign for a negative number.\<close>

function decimal :: "nat \<Rightarrow> string" where
  "decimal n =
     (if n < 10 then [''0123456789'' ! n]
      else decimal (n div 10) @ [''0123456789'' ! (n mod 10)])"
  by pat_completeness auto
termination
  by (relation "measure (\<lambda>n. n)") auto

declare decimal.simps [simp del]

definition Itoa :: "int \<Rightarrow> string" where
  "Itoa i = (if i < 0 then CHR ''-'' # decimal (nat (- i)) else decimal (nat i))"

subsection \<open>List\<close>

text \<open>
  A Go call either returns or panics; a slice expression with bounds out of range is a
  run-time panic.
\<close>

datatype 'a outcome = Returns 'a | Panics

text \<open>
  The loop \<^verbatim>\<open>for iter.Next() { tokens = append(tokens, string(iter.Value())) }\<close>
  over the entries the iterator still has.
\<close>

fun collect_values :: "(string \<times> string) list \<Rightarrow> string list \<Rightarrow> string list" where
  "collect_values [] tokens = tokens"
| "collect_values (e # es) tokens = collect_values es (tokens @ [snd e])"

text \<open>
  The slice expression \<^verbatim>\<open>tokens[start:end]\<close> panics unless
  \<open>0 \<le> start \<le> end \<le> cap tokens\<close>; \<^verbatim>\<open>List\<close> only reaches it with
  \<open>end \<le> len tokens\<close>, so the length stands for the capacity.
\<close>

definition go_slice :: "'a list \<Rightarrow> int \<Rightarrow> int \<Rightarrow> 'a list outcome" where
  "go_slice xs lo hi =
     (if 0 \<le> lo \<and> lo \<le> hi \<and> hi \<le> int (length xs)
      then Returns (take (nat hi - nat lo) (drop (nat lo) xs))
      else Panics)"

text \<open>
  \<^verbatim>\<open>List\<close> returns \<^verbatim>\<open>([]string, string, bool, error)\<close>; the item slice is nil
  (\<open>None\<close>) on every error return. \<open>limit\<close> and \<open>defaultLimit\<close> are Go \<^verbatim>\<open>int\<close>
  values.
\<close>

definition List ::
  "string \<Rightarrow> int \<Rightarrow> int \<Rightarrow> DB
     \<Rightarrow> DB \<times> (string list option \<times> string \<times> bool \<times> error option) outcome" where
  "List after limit defaultLimit db =
     (case (if after \<noteq> [] then Atoi after else Inr 0) of
        Inl e \<Rightarrow> (db, Returns (None, [], False, Some Invalid_after))
      | Inr zafter \<Rightarrow>
          let (iter, db1) = DB_Iterator db;
              tokens = collect_values iter [];
              len = int (length tokens)
          in if len = 0 then (db1, Returns (None, [], True, Some No_access_token))
             else if len > zafter then
               let start = zafter;
                   end = (if len > wrap64 (zafter + limit) then wrap64 (zafter + limit) else len);
                   last = (len = end \<or> len < defaultLimit)
               in (db1,
                   case go_slice tokens start end of
                     Panics \<Rightarrow> Panics
                   | Returns items \<Rightarrow> Returns (Some items, Itoa end, last, None))
             else (db1, Returns (None, [], False, Some Invalid_after)))"

subsection \<open>What the theorems assume of encoding/json\<close>

text \<open>
  \<^verbatim>\<open>Check\<close> reads back what \<^verbatim>\<open>Create\<close> wrote through \<^verbatim>\<open>json.Unmarshal\<close>. The
  one property of the encoding this needs: a record that was marshalled without error
  unmarshals without error, with the same \<open>Token\<close> field.
\<close>

definition round_trips :: "collaborators \<Rightarrow> Token \<Rightarrow> bool" where
  "round_trips c t =
     (case json_Marshal_Token c t of
        Inl e \<Rightarrow> True
      | Inr v \<Rightarrow>
          (case json_Unmarshal_Token c v of
             Inl e \<Rightarrow> False
           | Inr t' \<Rightarrow> Token t' = Token t))"

subsection \<open>Concrete collaborators for closed instances\<close>

text \<open>
  A small stand-in for the collaborators, so that the theorems can be run on concrete
  inputs: keys are the identifier between double quotes (what encoding/json writes for
  a string of identifier characters), a record is written as a flat JSON object and read
  back by cutting the text at the double quotes, and the hash is a fixed byte
  permutation framed to 32 bytes.
\<close>

fun split_on :: "char \<Rightarrow> string \<Rightarrow> string list" where
  "split_on d [] = [[]]"
| "split_on d (c # cs) =
     (if c = d then [] # split_on d cs
      else (case split_on d cs of
              [] \<Rightarrow> [[c]]
            | w # ws \<Rightarrow> (c # w) # ws))"

definition quoted :: "string \<Rightarrow> string" where
  "quoted s = CHR 0x22 # s @ [CHR 0x22]"

definition sample_Marshal_Token :: "Token \<Rightarrow> string + string" where
  "sample_Marshal_Token t =
     Inr (''{'' @ quoted ''id'' @ '':'' @ quoted (ID t) @ '','' @
          quoted ''token'' @ '':'' @ quoted (Token t) @ '','' @
          quoted ''type'' @ '':'' @ quoted (Type t) @ '','' @
          quoted ''created_at'' @ '':'' @ quoted (Itoa (Created t)) @ ''}'')"

definition sample_Unmarshal_Token :: "string \<Rightarrow> string + Token" where
  "sample_Unmarshal_Token v =
     (let ws = split_on (CHR 0x22) v
      in if length ws \<noteq> 17 then Inl ''unexpected input''
         else case Atoi (ws ! 15) of
                Inl e \<Rightarrow> Inl e
              | Inr n \<Rightarrow> Inr \<lparr>ID = ws ! 3, Token = ws ! 7, Type = ws ! 11, Created = n\<rparr>)"

definition sample_Sum256 :: "byte list \<Rightarrow> byte list" where
  "sample_Sum256 bs = go_copy zero_buf (map (\<lambda>b. 3 * b + 1) (rev bs))"

definition sample :: collaborators where
  "sample =
     \<lparr>json_Marshal_string = (\<lambda>s. Inr (quoted s)),
      json_Marshal_Token = sample_Marshal_Token,
      json_Unmarshal_Token = sample_Unmarshal_Token,
      Sum256 = sample_Sum256\<rparr>"

definition empty_DB :: DB where
  "empty_DB = \<lparr>entries = [], calls = []\<rparr>"

text \<open>A random source that fills the buffer, and one that ends after 16 bytes.\<close>

definition full_source :: rand_source where
  "full_source = \<lparr>produced = map of_nat [1..<33], failure = ''unexpected EOF''\<rparr>"

definition short_source :: rand_source where
  "short_source = \<lparr>produced = map of_nat [1..<17], failure = ''unexpected EOF''\<rparr>"

text \<open>A database that holds one record, and one that holds two.\<close>

definition one_DB :: DB where
  "one_DB = \<lparr>entries = [(quoted ''alice'', ''{}'')], calls = []\<rparr>"

definition two_DB :: DB where
  "two_DB = \<lparr>entries = [(quoted ''alice'', ''{}''), (quoted ''bob'', ''{}'')], calls = []\<rparr>"

text \<open>
  The record that \<^verbatim>\<open>Create\<close> writes for the identifier \<open>alice\<close> with these
  collaborators, at time 1000 and with type \<open>client\<close>, and the database it leaves.
\<close>

definition alice_secret :: "byte list" where
  "alice_secret = map of_nat [1..<33]"

definition alice_token :: Token where
  "alice_token =
     \<lparr>ID = ''alice'', Token = Sprintf_s_x ''alice'' (Sum256 sample alice_secret),
      Type = ''client'', Created = 1000\<rparr>"

definition alice_json :: string where
  "alice_json = (case json_Marshal_Token sample alice_token of Inl e \<Rightarrow> [] | Inr v \<Rightarrow> v)"

definition alice_DB :: DB where
  "alice_DB =
     DB_Set (quoted ''alice'') alice_json
       (empty_DB\<lparr>calls := calls empty_DB @ [Call_Get (quoted ''alice'')]\<rparr>)"

text \<open>
  A database with one record for \<open>bob\<close>, whose secret is the three bytes 1, 2, 3
  followed by 29 zero bytes.
\<close>

definition bob_secret :: "byte list" where
  "bob_secret = [1, 2, 3] @ replicate 29 0"

definition bob_token :: Token where
  "bob_token =
     \<lparr>ID = ''bob'', Token = Sprintf_s_x ''bob'' (Sum256 sample bob_secret),
      Type = ''network'', Created = 2000\<rparr>"

definition bob_json :: string where
  "bob_json = (case json_Marshal_Token sample bob_token of Inl e \<Rightarrow> [] | Inr v \<Rightarrow> v)"

definition bob_DB :: DB where
  "bob_DB = \<lparr>entries = [(quoted ''bob'', bob_json)], calls = []\<rparr>"

section \<open>Properties\<close>

subsection \<open>Hexadecimal text\<close>

lemma nibble_high_less: "unat (drop_bit 4 (c::byte)) < 16"
proof -
  have "unat c < 256" using unsigned_less[of c, where 'a=nat] by simp
  then show ?thesis by (simp add: drop_bit_eq_div unat_div)
qed

lemma nibble_low_less: "unat ((c::byte) AND 0xF) < 16"
proof -
  have "unat (c AND 0xF) \<le> unat (0xF :: byte)"
    by (rule word_and_le1 [THEN word_le_nat_alt [THEN iffD1]])
  then show ?thesis by simp
qed

lemma fromHexChar_ldigits: "n < 16 \<Longrightarrow> fromHexChar (ldigits ! n) = Some (of_nat n)"
proof -
  assume "n < 16"
  then have "n \<in> set [0..<16]" by simp
  also have "[0..<16] = [0,1,2,3,4,5,6,7,8,9,10,11,12,13,14,15::nat]" by (simp add: upt_rec)
  finally show ?thesis
    by (auto simp: fromHexChar_def ldigits_def)
qed

lemma nibbles_join: "push_bit 4 (drop_bit 4 c) OR (c AND 0xF) = (c::byte)"
proof -
  have m: "(0xF :: byte) = mask 4" by (simp add: mask_eq_exp_minus_1)
  have "c AND 0xF = take_bit 4 c" unfolding m by (simp add: take_bit_eq_mask)
  then show ?thesis
    by (simp add: bit_eq_iff bit_simps) (metis le_add_diff_inverse not_le)
qed

lemma hex_DecodeString_fmt_x: "hex_DecodeString (fmt_x bs) = Some bs"
proof (induction bs)
  case Nil
  show ?case by (simp add: fmt_x_def)
next
  case (Cons b bs)
  have hi: "fromHexChar (ldigits ! unat (drop_bit 4 b)) = Some (drop_bit 4 b)"
    using fromHexChar_ldigits [OF nibble_high_less [of b]] by simp
  have lo: "fromHexChar (ldigits ! unat (b AND 0xF)) = Some (b AND 0xF)"
    using fromHexChar_ldigits [OF nibble_low_less [of b]] by simp
  have "fmt_x (b # bs) = ldigits ! unat (drop_bit 4 b) # ldigits ! unat (b AND 0xF) # fmt_x bs"
    by (simp add: fmt_x_def fmt_x_byte_def)
  then show ?case
    using Cons.IH hi lo nibbles_join [of b] by simp
qed

lemma fmt_x_inject: "fmt_x a = fmt_x b \<Longrightarrow> a = b"
  by (metis hex_DecodeString_fmt_x option.inject)

lemma Sprintf_s_x_inject: "Sprintf_s_x s a = Sprintf_s_x s b \<Longrightarrow> a = b"
  by (simp add: Sprintf_s_x_def fmt_x_inject)

lemma secret_of_issuance_Sprintf: "secret_of_issuance s (Sprintf_s_x s bs) = Some bs"
  by (simp add: secret_of_issuance_def Sprintf_s_x_def hex_DecodeString_fmt_x)

lemma go_copy_zero_buf: "go_copy zero_buf s = frame32 s"
  by (auto simp: go_copy_def zero_buf_def tokenSize_def frame32_def min_def)

lemma length_frame32: "length (frame32 s) = 32"
  by (simp add: frame32_def)

lemma frame32_id: "length s = 32 \<Longrightarrow> frame32 s = s"
  by (simp add: frame32_def)

lemma map_of_filter_key:
  "map_of (filter (\<lambda>e. fst e \<noteq> k) xs) k' = (if k' = k then None else map_of xs k')"
  by (induction xs) auto

lemma map_of_insort_key:
  "k \<notin> fst ` set xs \<Longrightarrow>
     map_of (insort_key fst (k, v) xs) k' = (if k' = k then Some v else map_of xs k')"
  by (induction xs) auto

lemma entries_DB_Set:
  "map_of (entries (DB_Set k v db)) k' = (if k' = k then Some v else map_of (entries db) k')"
proof -
  have "k \<notin> fst ` set (filter (\<lambda>e. fst e \<noteq> k) (entries db))" by auto
  then show ?thesis
    by (simp add: DB_Set_def map_of_insort_key map_of_filter_key)
qed

lemma entries_DB_Delete:
  "map_of (entries (DB_Delete k db)) k' = (if k' = k then None else map_of (entries db) k')"
  by (simp add: DB_Delete_def map_of_filter_key)

lemma collect_values_eq: "collect_values es acc = acc @ map snd es"
  by (induction es arbitrary: acc) auto

subsection \<open>Decimal text\<close>

lemma digit_of_char_digit: "d < 10 \<Longrightarrow> digit_of_char (''0123456789'' ! d) = Some d"
proof -
  assume "d < 10"
  then have "d \<in> set [0..<10]" by simp
  also have "[0..<10] = [0,1,2,3,4,5,6,7,8,9::nat]" by (simp add: upt_rec)
  finally show ?thesis
    by (auto simp: digit_of_char_def less_eq_char_def)
qed

lemma parse_digits_append:
  "parse_digits (xs @ ys) acc =
     (case parse_digits xs acc of None \<Rightarrow> None | Some a \<Rightarrow> parse_digits ys a)"
  by (induction xs arbitrary: acc) (auto split: option.splits)

lemma parse_digits_decimal: "parse_digits (decimal n) 0 = Some n"
proof (induction n rule: decimal.induct)
  case (1 n)
  show ?case
  proof (cases "n < 10")
    case True
    then show ?thesis
      by (subst decimal.simps) (simp add: digit_of_char_digit)
  next
    case False
    have "n mod 10 < 10" by simp
    then have d: "digit_of_char (''0123456789'' ! (n mod 10)) = Some (n mod 10)"
      by (rule digit_of_char_digit)
    from False have "decimal n = decimal (n div 10) @ [''0123456789'' ! (n mod 10)]"
      by (subst decimal.simps) simp
    then show ?thesis
      using 1 [OF False] d by (simp add: parse_digits_append)
  qed
qed

lemma decimal_not_Nil: "decimal n \<noteq> []"
  by (subst decimal.simps) simp

lemma parse_digits_sign: "parse_digits (c # cs) acc = Some n \<Longrightarrow> c \<noteq> CHR ''-'' \<and> c \<noteq> CHR ''+''"
  by (auto simp: digit_of_char_def less_eq_char_def split: option.splits if_splits)

lemma hd_decimal: "decimal n = c # cs \<Longrightarrow> c \<noteq> CHR ''-'' \<and> c \<noteq> CHR ''+''"
  using parse_digits_decimal [of n] parse_digits_sign by metis

lemma Atoi_Itoa: "in_int64 i \<Longrightarrow> Atoi (Itoa i) = Inr i"
proof (cases "i < 0")
  case True
  assume "in_int64 i"
  with True show ?thesis
    by (simp add: Atoi_def Itoa_def decimal_not_Nil parse_digits_decimal)
next
  case False
  assume r: "in_int64 i"
  obtain c cs where dc: "decimal (nat i) = c # cs"
    using decimal_not_Nil [of "nat i"] by (cases "decimal (nat i)") auto
  from hd_decimal [OF dc] have "c \<noteq> CHR ''-''" "c \<noteq> CHR ''+''" by auto
  moreover have "parse_digits (c # cs) 0 = Some (nat i)"
    using parse_digits_decimal [of "nat i"] dc by simp
  ultimately show ?thesis
    using False r dc by (simp add: Atoi_def Itoa_def)
qed

subsection \<open>Identifiers and the three keyed operations\<close>

lemma id_char_iff: "(perl_word_char c \<or> c = CHR ''-'') = (c \<in> set spec_id_alphabet)"
  by (cases c) (simp add: perl_word_char_def spec_id_alphabet_def less_eq_char_def)

lemma validID_iff_spec: "validIDRegexp_MatchString s = spec_id_pattern s"
proof -
  have "list_all (\<lambda>c. perl_word_char c \<or> c = CHR ''-'') s = (\<forall>c \<in> set s. c \<in> set spec_id_alphabet)"
    by (simp add: list_all_iff id_char_iff)
  moreover have "(s \<noteq> []) = (1 \<le> length s)"
    by (cases s) auto
  ultimately show ?thesis
    by (simp add: validIDRegexp_MatchString_def spec_id_pattern_def)
qed

lemma rand_Read_contract:
  "rand_Read rnd p = (b, n, err) \<Longrightarrow> (err = None) = (n = int (length p))"
  by (auto simp: rand_Read_def Let_def split: if_splits)

lemma rand_Read_zero_buf:
  "rand_Read rnd zero_buf =
     (frame32 (produced rnd), int (min 32 (length (produced rnd))),
      if 32 \<le> length (produced rnd) then None else Some (failure rnd))"
  by (simp add: rand_Read_def go_copy_zero_buf Let_def) (auto simp: zero_buf_def tokenSize_def)

lemma Create_returns_token:
  assumes "Create c rnd now ident typ db = (db', Some issued, None)"
  shows "\<exists>k v. validIDRegexp_MatchString ident
           \<and> json_Marshal_string c ident = Inr k
           \<and> map_of (entries db) k = None
           \<and> 32 \<le> length (produced rnd)
           \<and> json_Marshal_Token c
                \<lparr>ID = ident, Token = Sprintf_s_x ident (Sum256 c (frame32 (produced rnd))),
                 Type = typ, Created = now\<rparr> = Inr v
           \<and> db' = DB_Set k v (db\<lparr>calls := calls db @ [Call_Get k]\<rparr>)
           \<and> issued = Sprintf_s_x ident (frame32 (produced rnd))"
  using assms
  by (auto simp: Create_def DB_Get_def rand_Read_zero_buf tokenSize_def Let_def
           split: if_splits sum.splits)

lemma Create_succeeds:
  assumes "validIDRegexp_MatchString ident"
    and "json_Marshal_string c ident = Inr k"
    and "map_of (entries db) k = None"
    and "32 \<le> length (produced rnd)"
    and "json_Marshal_Token c
           \<lparr>ID = ident, Token = Sprintf_s_x ident (Sum256 c (frame32 (produced rnd))),
            Type = typ, Created = now\<rparr> = Inr v"
  shows "Create c rnd now ident typ db =
           (DB_Set k v (db\<lparr>calls := calls db @ [Call_Get k]\<rparr>),
            Some (Sprintf_s_x ident (frame32 (produced rnd))), None)"
  using assms
  by (simp add: Create_def DB_Get_def rand_Read_zero_buf tokenSize_def Let_def)

lemma Check_stored:
  assumes "validIDRegexp_MatchString ident"
    and "json_Marshal_string c ident = Inr k"
    and "map_of (entries db) k = Some v"
    and "json_Unmarshal_Token c v = Inr t"
  shows "snd (Check c ident secret db) =
           (Token t = Sprintf_s_x ident (Sum256 c (frame32 secret)), None)"
  using assms
  by (simp add: Check_def DB_Get_def go_copy_zero_buf Let_def)

lemma Create_duplicate:
  assumes "validIDRegexp_MatchString ident"
    and "json_Marshal_string c ident = Inr k"
    and "map_of (entries db) k = Some v"
  shows "Create c rnd now ident typ db =
           (db\<lparr>calls := calls db @ [Call_Get k]\<rparr>, None, Some ErrDuplicateID)"
  using assms by (simp add: Create_def DB_Get_def Let_def)

lemma Check_entries: "entries (fst (Check c ident secret db)) = entries db"
  by (simp add: Check_def DB_Get_def Let_def split: sum.splits option.splits)

lemma Check_depends_on_entries:
  "entries db = entries db' \<Longrightarrow> snd (Check c ident secret db) = snd (Check c ident secret db')"
  by (simp add: Check_def DB_Get_def Let_def split: sum.splits option.splits)

lemma Create_without_token:
  "Create c rnd now ident ty db = (db', None, e) \<Longrightarrow> entries db' = entries db"
  by (auto simp: Create_def DB_Get_def Let_def split: if_splits sum.splits prod.splits)

subsection \<open>Pages, offsets and machine integers\<close>

lemma wrap64_id: "in_int64 x \<Longrightarrow> wrap64 x = x"
  by (simp add: wrap64_def in_int64_def)

lemma Atoi_in_int64: "Atoi s = Inr z \<Longrightarrow> in_int64 z"
  by (auto simp: Atoi_def Let_def split: list.splits if_splits option.splits prod.splits)

lemma List_parse_error:
  assumes "after \<noteq> []" and "Atoi after = Inl e"
  shows "List after limit dl db = (db, Returns (None, [], False, Some Invalid_after))"
  using assms by (simp add: List_def)

lemma List_parsed:
  assumes "(if after \<noteq> [] then Atoi after else Inr 0) = Inr z"
  shows "snd (List after limit dl db) =
     (let tokens = map snd (entries db);
          count = int (length tokens);
          e = (if count > wrap64 (z + limit) then wrap64 (z + limit) else count)
      in if count = 0 then Returns (None, [], True, Some No_access_token)
         else if count > z then
           (case go_slice tokens z e of
              Panics \<Rightarrow> Panics
            | Returns items \<Rightarrow> Returns (Some items, Itoa e, (count = e \<or> count < dl), None))
         else Returns (None, [], False, Some Invalid_after))"
  using assms
  by (simp add: List_def DB_Iterator_def collect_values_eq Let_def split: outcome.splits)

lemma List_page:
  assumes "0 \<le> offset" and "offset < int (length (entries db))"
    and "in_int64 offset" and "0 \<le> limit" and "in_int64 (offset + limit)"
    and "count = int (length (entries db))"
    and "e = min count (offset + limit)"
  shows "snd (List (Itoa offset) limit dl db) =
           Returns (Some (take (nat e - nat offset) (drop (nat offset) (map snd (entries db)))),
                    Itoa e, (e = count \<or> count < dl), None)"
proof -
  have nonempty: "Itoa offset \<noteq> []"
    using assms(1) by (simp add: Itoa_def decimal_not_Nil)
  have parsed: "(if Itoa offset \<noteq> [] then Atoi (Itoa offset) else Inr 0) = Inr offset"
    using nonempty Atoi_Itoa [OF assms(3)] by simp
  show ?thesis
    unfolding List_parsed [OF parsed]
    using assms by (auto simp: Let_def go_slice_def wrap64_id min_def)
qed

lemma Atoi_minus_one: "Atoi ''-1'' = Inr (- 1)"
  by (simp add: Atoi_def parse_digits.simps digit_of_char_def less_eq_char_def in_int64_def)

lemma Itoa_0: "Itoa 0 = ''0''"
  by (simp add: Itoa_def decimal.simps)

lemma Itoa_1: "Itoa 1 = ''1''"
  by (simp add: Itoa_def decimal.simps)

subsection \<open>The sample collaborators at work\<close>

lemma spec_alice: "spec_id_pattern ''alice''"
  by (simp add: spec_id_pattern_def spec_id_alphabet_def)

lemma key_alice: "json_Marshal_string sample ''alice'' = Inr (quoted ''alice'')"
  by (simp add: sample_def)

lemma full_source_secret: "frame32 (produced full_source) = alice_secret"
  by (simp add: full_source_def frame32_def alice_secret_def)

lemma marshal_alice: "json_Marshal_Token sample alice_token = Inr alice_json"
  by (simp add: alice_json_def sample_def sample_Marshal_Token_def)

lemma unmarshal_alice: "json_Unmarshal_Token sample alice_json = Inr alice_token"
  by code_simp

lemma round_trips_alice: "round_trips sample alice_token"
  by (simp add: round_trips_def marshal_alice unmarshal_alice)

lemma stored_alice: "map_of (entries alice_DB) (quoted ''alice'') = Some alice_json"
  by (simp add: alice_DB_def entries_DB_Set)

lemma length_alice_secret: "length alice_secret = 32"
  by (simp add: alice_secret_def)

lemma unmarshal_bob: "json_Unmarshal_Token sample bob_json = Inr bob_token"
  by code_simp

lemma Create_alice:
  "Create sample full_source 1000 ''alice'' ''client'' empty_DB =
     (alice_DB, Some (Sprintf_s_x ''alice'' alice_secret), None)"
proof -
  have v: "validIDRegexp_MatchString ''alice''"
    using spec_alice by (simp add: validID_iff_spec)
  have m: "json_Marshal_Token sample
             \<lparr>ID = ''alice'',
              Token = Sprintf_s_x ''alice'' (Sum256 sample (frame32 (produced full_source))),
              Type = ''client'', Created = 1000\<rparr> = Inr alice_json"
    using marshal_alice by (simp add: full_source_secret alice_token_def)
  show ?thesis
    using Create_succeeds [OF v key_alice _ _ m, of empty_DB]
    by (simp add: empty_DB_def full_source_def alice_DB_def full_source_secret [unfolded full_source_def, simplified])
qed

subsection \<open>Issue, then verify\<close>

lemma Check_issued_secret:
  assumes "validIDRegexp_MatchString ident"
    and "json_Marshal_string c ident = Inr k"
    and "map_of (entries db) k = Some v"
    and "json_Marshal_Token c
           \<lparr>ID = ident, Token = Sprintf_s_x ident (Sum256 c secret),
            Type = ty, Created = now\<rparr> = Inr v"
    and "length secret = 32"
    and "round_trips c \<lparr>ID = ident, Token = Sprintf_s_x ident (Sum256 c secret),
                         Type = ty, Created = now\<rparr>"
  shows "snd (Check c ident secret db) = (True, None)"
proof -
  from assms(4) assms(6) obtain t where
    dec: "json_Unmarshal_Token c v = Inr t"
    and same: "Token t = Sprintf_s_x ident (Sum256 c secret)"
    by (auto simp: round_trips_def split: sum.splits)
  show ?thesis
    using Check_stored [OF assms(1) assms(2) assms(3) dec, of secret] same assms(5)
    by (simp add: frame32_id)
qed

text \<open>
  Claim C1. For an identifier that matches the pattern and a database with no record
  under its key, when \<^verbatim>\<open>Create\<close> has returned an issuance string and the secret is
  the hex-decoded text after \<^verbatim>\<open><id>:\<close>, the secret has 32 bytes and \<^verbatim>\<open>Check\<close> on
  the database that \<^verbatim>\<open>Create\<close> left returns \<open>(true, nil)\<close>. The JSON encoding is
  assumed to give back the digest of the record it wrote. Lemma \<open>Create_succeeds\<close>
  says when \<^verbatim>\<open>Create\<close> does return the string.
\<close>

theorem Create_then_Check:
  assumes "spec_id_pattern ident"
    and "json_Marshal_string c ident = Inr k"
    and "map_of (entries db) k = None"
    and "Create c rnd now ident typ db = (db', Some issued, None)"
    and "secret_of_issuance ident issued = Some secret"
    and "round_trips c \<lparr>ID = ident, Token = Sprintf_s_x ident (Sum256 c secret),
                         Type = typ, Created = now\<rparr>"
  shows "length secret = 32 \<and> snd (Check c ident secret db') = (True, None)"
proof -
  from Create_returns_token [OF assms(4)] obtain k' v where
    valid: "validIDRegexp_MatchString ident"
    and key: "json_Marshal_string c ident = Inr k'"
    and enc: "json_Marshal_Token c
                \<lparr>ID = ident, Token = Sprintf_s_x ident (Sum256 c (frame32 (produced rnd))),
                 Type = typ, Created = now\<rparr> = Inr v"
    and db': "db' = DB_Set k' v (db\<lparr>calls := calls db @ [Call_Get k']\<rparr>)"
    and issued: "issued = Sprintf_s_x ident (frame32 (produced rnd))"
    by blast
  from assms(5) issued have secret: "secret = frame32 (produced rnd)"
    by (simp add: secret_of_issuance_Sprintf)
  then have len: "length secret = 32"
    by (simp add: length_frame32)
  have stored: "map_of (entries db') k' = Some v"
    by (simp add: db' entries_DB_Set)
  from enc secret have enc': "json_Marshal_Token c
                \<lparr>ID = ident, Token = Sprintf_s_x ident (Sum256 c secret),
                 Type = typ, Created = now\<rparr> = Inr v"
    by simp
  have "snd (Check c ident secret db') = (True, None)"
    using valid key stored enc' len assms(6) by (rule Check_issued_secret)
  with len show ?thesis by simp
qed

theorem Create_then_Check_witness:
  "spec_id_pattern ''alice''
   \<and> json_Marshal_string sample ''alice'' = Inr (quoted ''alice'')
   \<and> map_of (entries empty_DB) (quoted ''alice'') = None
   \<and> Create sample full_source 1000 ''alice'' ''client'' empty_DB =
       (alice_DB, Some (Sprintf_s_x ''alice'' alice_secret), None)
   \<and> secret_of_issuance ''alice'' (Sprintf_s_x ''alice'' alice_secret) = Some alice_secret
   \<and> round_trips sample alice_token
   \<and> length alice_secret = 32
   \<and> snd (Check sample ''alice'' alice_secret alice_DB) = (True, None)"
proof -
  have fresh: "map_of (entries empty_DB) (quoted ''alice'') = None"
    by (simp add: empty_DB_def)
  from Create_then_Check [OF spec_alice key_alice fresh Create_alice secret_of_issuance_Sprintf
          round_trips_alice [unfolded alice_token_def]]
    spec_alice key_alice fresh Create_alice secret_of_issuance_Sprintf round_trips_alice
  show ?thesis by simp
qed

subsection \<open>A wrong secret\<close>

text \<open>
  Claim C2. For an identifier that matches the pattern and has a record whose stored
  digest is \<^verbatim>\<open><id>:<hex h>\<close>, \<^verbatim>\<open>Check\<close> with any 32-byte secret whose hash is not
  \<open>h\<close> returns \<open>(false, nil)\<close>: the value false and no error.
\<close>

theorem Check_wrong_secret:
  assumes "spec_id_pattern ident"
    and "json_Marshal_string c ident = Inr k"
    and "map_of (entries db) k = Some v"
    and "json_Unmarshal_Token c v = Inr t"
    and "Token t = Sprintf_s_x ident h"
    and "length wrongSecret = 32"
    and "Sum256 c wrongSecret \<noteq> h"
  shows "snd (Check c ident wrongSecret db) = (False, None)"
proof -
  from assms(1) have valid: "validIDRegexp_MatchString ident"
    by (simp add: validID_iff_spec)
  have "Sprintf_s_x ident h \<noteq> Sprintf_s_x ident (Sum256 c wrongSecret)"
    using assms(7) Sprintf_s_x_inject by blast
  then show ?thesis
    using Check_stored [OF valid assms(2) assms(3) assms(4), of wrongSecret] assms(5) assms(6)
    by (simp add: frame32_id)
qed

theorem Check_wrong_secret_witness:
  "spec_id_pattern ''alice''
   \<and> json_Marshal_string sample ''alice'' = Inr (quoted ''alice'')
   \<and> map_of (entries alice_DB) (quoted ''alice'') = Some alice_json
   \<and> json_Unmarshal_Token sample alice_json = Inr alice_token
   \<and> Token alice_token = Sprintf_s_x ''alice'' (Sum256 sample alice_secret)
   \<and> length (replicate 32 (0::byte)) = 32
   \<and> Sum256 sample (replicate 32 0) \<noteq> Sum256 sample alice_secret
   \<and> snd (Check sample ''alice'' (replicate 32 0) alice_DB) = (False, None)"
proof -
  have t: "Token alice_token = Sprintf_s_x ''alice'' (Sum256 sample alice_secret)"
    by (simp add: alice_token_def)
  have l: "length (replicate 32 (0::byte)) = 32"
    by simp
  have d: "Sum256 sample (replicate 32 0) \<noteq> Sum256 sample alice_secret"
    by code_simp
  from Check_wrong_secret [OF spec_alice key_alice stored_alice unmarshal_alice t l d]
    spec_alice key_alice stored_alice unmarshal_alice t l d
  show ?thesis by blast
qed

subsection \<open>Creating the same identifier twice\<close>

text \<open>
  Claim C3. After a \<^verbatim>\<open>Create\<close> that returned an issuance string for an identifier, any
  second \<^verbatim>\<open>Create\<close> with that identifier (whatever its type, time and random source)
  returns the duplicate-ID error and leaves the entries of the database as they were.
  The identifier matches the pattern, and \<^verbatim>\<open>Check\<close> with the secret of the first call
  still returns \<open>(true, nil)\<close>.
\<close>

theorem Create_twice:
  assumes "Create c rnd now ident typ' db = (db1, Some issued, None)"
    and "Create c rnd2 now2 ident typ db1 = (db2, r2)"
  shows "spec_id_pattern ident \<and> r2 = (None, Some ErrDuplicateID)
         \<and> entries db2 = entries db1
         \<and> (\<forall>secret.
               secret_of_issuance ident issued = Some secret
               \<and> round_trips c \<lparr>ID = ident, Token = Sprintf_s_x ident (Sum256 c secret),
                                  Type = typ', Created = now\<rparr>
               \<longrightarrow> snd (Check c ident secret db2) = (True, None))"
proof -
  from Create_returns_token [OF assms(1)] obtain k v where
    valid: "validIDRegexp_MatchString ident"
    and key: "json_Marshal_string c ident = Inr k"
    and enc: "json_Marshal_Token c
                \<lparr>ID = ident, Token = Sprintf_s_x ident (Sum256 c (frame32 (produced rnd))),
                 Type = typ', Created = now\<rparr> = Inr v"
    and db1: "db1 = DB_Set k v (db\<lparr>calls := calls db @ [Call_Get k]\<rparr>)"
    and issued: "issued = Sprintf_s_x ident (frame32 (produced rnd))"
    by blast
  have pat: "spec_id_pattern ident"
    using valid by (simp add: validID_iff_spec)
  have stored: "map_of (entries db1) k = Some v"
    by (simp add: db1 entries_DB_Set)
  from Create_duplicate [OF valid key stored, of rnd2 now2 "typ"] assms(2)
  have r2: "r2 = (None, Some ErrDuplicateID)"
    and same: "entries db2 = entries db1"
    by auto
  have "snd (Check c ident secret db2) = (True, None)"
    if "secret_of_issuance ident issued = Some secret"
      and "round_trips c \<lparr>ID = ident, Token = Sprintf_s_x ident (Sum256 c secret),
                           Type = typ', Created = now\<rparr>"
    for secret
  proof -
    from that(1) issued have secret: "secret = frame32 (produced rnd)"
      by (simp add: secret_of_issuance_Sprintf)
    then have len: "length secret = 32"
      by (simp add: length_frame32)
    from stored same have stored2: "map_of (entries db2) k = Some v"
      by simp
    from enc secret have enc': "json_Marshal_Token c
                \<lparr>ID = ident, Token = Sprintf_s_x ident (Sum256 c secret),
                 Type = typ', Created = now\<rparr> = Inr v"
      by simp
    show ?thesis
      using valid key stored2 enc' len that(2) by (rule Check_issued_secret)
  qed
  with pat r2 same show ?thesis by blast
qed

theorem Create_twice_witness:
  "Create sample full_source 1000 ''alice'' ''client'' empty_DB =
       (alice_DB, Some (Sprintf_s_x ''alice'' alice_secret), None)
   \<and> secret_of_issuance ''alice'' (Sprintf_s_x ''alice'' alice_secret) = Some alice_secret
   \<and> round_trips sample alice_token
   \<and> spec_id_pattern ''alice''
   \<and> snd (Create sample short_source 2000 ''alice'' ''network'' alice_DB) = (None, Some ErrDuplicateID)
   \<and> entries (fst (Create sample short_source 2000 ''alice'' ''network'' alice_DB)) = entries alice_DB
   \<and> snd (Check sample ''alice'' alice_secret
             (fst (Create sample short_source 2000 ''alice'' ''network'' alice_DB))) = (True, None)"
proof -
  have again: "Create sample short_source 2000 ''alice'' ''network'' alice_DB =
      (fst (Create sample short_source 2000 ''alice'' ''network'' alice_DB),
       snd (Create sample short_source 2000 ''alice'' ''network'' alice_DB))"
    by simp
  have rt: "round_trips sample
              \<lparr>ID = ''alice'', Token = Sprintf_s_x ''alice'' (Sum256 sample alice_secret),
               Type = ''client'', Created = 1000\<rparr>"
    using round_trips_alice by (simp add: alice_token_def)
  from Create_twice [OF Create_alice again] secret_of_issuance_Sprintf [of "''alice''" alice_secret] rt
  have "snd (Check sample ''alice'' alice_secret
             (fst (Create sample short_source 2000 ''alice'' ''network'' alice_DB))) = (True, None)"
    by blast
  with Create_twice [OF Create_alice again]
    Create_alice secret_of_issuance_Sprintf round_trips_alice
  show ?thesis by simp
qed

subsection \<open>Listing: errors and panics\<close>

text \<open>
  Claim C4 says that \<^verbatim>\<open>List\<close> returns an error exactly for an unparsable or negative
  \<open>after\<close>, an offset at or beyond the number of records, or an empty database, and a
  nil error otherwise. What the code does once \<open>after\<close> is empty or parses to \<open>z\<close>:
  the store-empty error on no records, the invalid-after error when \<open>z\<close> is at or
  beyond the number of records, a run-time panic when \<open>z\<close> is negative or the wrapped
  sum \<open>z + limit\<close> is below \<open>z\<close>, and a nil error in every other case. The third
  case contradicts the claim.
\<close>

theorem List_outcomes:
  assumes "count = int (length (entries db))"
  shows "(\<forall>e. after \<noteq> [] \<and> Atoi after = Inl e \<longrightarrow>
            List after limit dl db = (db, Returns (None, [], False, Some Invalid_after)))
       \<and> (\<forall>z. (if after \<noteq> [] then Atoi after else Inr 0) = Inr z \<longrightarrow>
            (count = 0 \<longrightarrow>
               snd (List after limit dl db) = Returns (None, [], True, Some No_access_token))
          \<and> (0 < count \<and> count \<le> z \<longrightarrow>
               snd (List after limit dl db) = Returns (None, [], False, Some Invalid_after))
          \<and> (0 < count \<and> z < count \<and> (z < 0 \<or> wrap64 (z + limit) < z) \<longrightarrow>
               snd (List after limit dl db) = Panics)
          \<and> (0 < count \<and> 0 \<le> z \<and> z < count \<and> z \<le> wrap64 (z + limit) \<longrightarrow>
               (\<exists>items cursor last.
                  snd (List after limit dl db) = Returns (Some items, cursor, last, None))))"
proof -
  have parsed: "(count = 0 \<longrightarrow>
               snd (List after limit dl db) = Returns (None, [], True, Some No_access_token))
          \<and> (0 < count \<and> count \<le> z \<longrightarrow>
               snd (List after limit dl db) = Returns (None, [], False, Some Invalid_after))
          \<and> (0 < count \<and> z < count \<and> (z < 0 \<or> wrap64 (z + limit) < z) \<longrightarrow>
               snd (List after limit dl db) = Panics)
          \<and> (0 < count \<and> 0 \<le> z \<and> z < count \<and> z \<le> wrap64 (z + limit) \<longrightarrow>
               (\<exists>items cursor last.
                  snd (List after limit dl db) = Returns (Some items, cursor, last, None)))"
    if "(if after \<noteq> [] then Atoi after else Inr 0) = Inr z" for z
    unfolding List_parsed [OF that] using assms
    by (auto simp: Let_def go_slice_def)
  from parsed List_parse_error [of after _ limit dl db] show ?thesis
    by blast
qed

theorem List_outcomes_witness:
  "(1::int) = int (length (entries one_DB))
   \<and> (if ''-1'' \<noteq> [] then Atoi ''-1'' else Inr 0) = Inr (- 1)
   \<and> (0::int) < 1 \<and> (- 1 :: int) < 1 \<and> (- 1 :: int) < 0
   \<and> snd (List ''-1'' 10 100 one_DB) = Panics
   \<and> (if [] \<noteq> [] then Atoi [] else Inr 0) = Inr 0
   \<and> wrap64 (0 + (- 1)) < 0
   \<and> snd (List [] (- 1) 100 one_DB) = Panics"
proof -
  have a: "(if ''-1'' \<noteq> [] then Atoi ''-1'' else Inr 0) = Inr (- 1)"
    by (simp add: Atoi_minus_one)
  have a': "(if [] \<noteq> [] then Atoi [] else Inr 0) = Inr 0"
    by simp
  have b: "(1::int) = int (length (entries one_DB))"
    by (simp add: one_DB_def)
  have w: "wrap64 (0 + (- 1)) < 0"
    by (simp add: wrap64_def)
  from List_outcomes [OF b, of "''-1''" 10 100] a
  have p1: "snd (List ''-1'' 10 100 one_DB) = Panics"
    by simp
  from List_outcomes [OF b, of "[]" "- 1" 100] w
  have p2: "snd (List [] (- 1) 100 one_DB) = Panics"
    by simp
  from p1 p2 a a' b w show ?thesis by simp
qed

subsection \<open>A random source that delivers too little\<close>

text \<open>
  Claim C5. For an identifier that matches the pattern and has no record, whenever the
  random source fills fewer than 32 bytes of the secret buffer, \<^verbatim>\<open>Create\<close> returns no
  issuance string and the error of the read, and writes nothing: the only call it has
  made on the database is the lookup. A read that stops short always carries an error,
  also when the source merely ends (lemma \<open>rand_Read_contract\<close>), so there is no
  short read without one.
\<close>

theorem Create_short_read:
  assumes "spec_id_pattern ident"
    and "json_Marshal_string c ident = Inr k"
    and "map_of (entries db) k = None"
    and "length (produced rnd) < 32"
  shows "Create c rnd now ident ty db =
           (db\<lparr>calls := calls db @ [Call_Get k]\<rparr>, None, Some (Foreign (failure rnd)))"
proof -
  from assms(1) have valid: "validIDRegexp_MatchString ident"
    by (simp add: validID_iff_spec)
  from assms(4) have short: "rand_Read rnd zero_buf =
      (frame32 (produced rnd), int (length (produced rnd)), Some (failure rnd))"
    by (simp add: rand_Read_zero_buf)
  show ?thesis
    using valid assms(2) assms(3) short
    by (simp add: Create_def DB_Get_def Let_def)
qed

theorem Create_short_read_witness:
  "spec_id_pattern ''alice''
   \<and> json_Marshal_string sample ''alice'' = Inr (quoted ''alice'')
   \<and> map_of (entries empty_DB) (quoted ''alice'') = None
   \<and> length (produced short_source) < 32
   \<and> Create sample short_source 1000 ''alice'' ''client'' empty_DB =
       (empty_DB\<lparr>calls := calls empty_DB @ [Call_Get (quoted ''alice'')]\<rparr>, None,
        Some (Foreign ''unexpected EOF''))"
proof -
  have e: "map_of (entries empty_DB) (quoted ''alice'') = None"
    by (simp add: empty_DB_def)
  have f: "length (produced short_source) < 32"
    by (simp add: short_source_def)
  have g: "failure short_source = ''unexpected EOF''"
    by (simp add: short_source_def)
  from Create_short_read [OF spec_alice key_alice e f, of 1000 "''client''"] e f g spec_alice key_alice
  show ?thesis by simp
qed

subsection \<open>Listing: a page\<close>

text \<open>
  Claim C6 says that for every offset below the number of records and every limit
  \<^verbatim>\<open>List\<close> returns the records from the offset up to
  \<open>min total (offset + limit)\<close>. Lemma \<open>List_page\<close> proves this for a limit that is
  not negative and a sum inside the 64-bit range. When the wrapped sum is below the
  offset (a negative limit, or a sum that overflows), the code panics.
\<close>

theorem List_page_panics:
  assumes "0 \<le> offset" and "offset < int (length (entries db))"
    and "in_int64 offset"
    and "wrap64 (offset + limit) < offset"
  shows "snd (List (Itoa offset) limit dl db) = Panics"
proof -
  have nonempty: "Itoa offset \<noteq> []"
    using assms(1) by (simp add: Itoa_def decimal_not_Nil)
  have parsed: "(if Itoa offset \<noteq> [] then Atoi (Itoa offset) else Inr 0) = Inr offset"
    using nonempty Atoi_Itoa [OF assms(3)] by simp
  show ?thesis
    unfolding List_parsed [OF parsed]
    using assms by (auto simp: Let_def go_slice_def)
qed

theorem List_page_panics_witness:
  "(0::int) \<le> 0 \<and> (0::int) < int (length (entries two_DB)) \<and> in_int64 0
   \<and> wrap64 (0 + (- 1)) < 0
   \<and> snd (List ''0'' (- 1) 100 two_DB) = Panics
   \<and> (0::int) \<le> 1 \<and> (1::int) < int (length (entries two_DB)) \<and> in_int64 1
   \<and> wrap64 (1 + 9223372036854775807) < 1
   \<and> snd (List ''1'' 9223372036854775807 100 two_DB) = Panics"
proof -
  have l: "(0::int) < int (length (entries two_DB))" "(1::int) < int (length (entries two_DB))"
    by (simp_all add: two_DB_def)
  have r: "in_int64 0" "in_int64 1"
    by (simp_all add: in_int64_def)
  have w: "wrap64 (0 + (- 1)) < 0" "wrap64 (1 + 9223372036854775807) < 1"
    by (simp_all add: wrap64_def)
  from List_page_panics [OF _ l(1) r(1) w(1), of 100]
    List_page_panics [OF _ l(2) r(2) w(2), of 100] l r w
  show ?thesis by (simp add: Itoa_0 Itoa_1)
qed

subsection \<open>Deleting\<close>

text \<open>
  Claim C7. For an identifier that matches the pattern, \<^verbatim>\<open>Delete\<close> returns a nil error
  whatever the database holds; the only call it makes on the database is the delete
  itself (no lookup), and no \<^verbatim>\<open>Delete\<close> returns the no-such-ID error. A
  \<^verbatim>\<open>Create\<close> of the same identifier right after it returns an issuance string and
  stores the record, provided the random source fills the buffer and the record
  marshals.
\<close>

theorem Delete_then_Create:
  assumes "spec_id_pattern ident"
    and "json_Marshal_string c ident = Inr k"
  shows "snd (Delete c ident db) = None
     \<and> calls (fst (Delete c ident db)) = calls db @ [Call_Delete k]
     \<and> snd (Delete c other db) \<noteq> Some ErrNoMatchID
     \<and> (32 \<le> length (produced rnd)
          \<and> json_Marshal_Token c
               \<lparr>ID = ident, Token = Sprintf_s_x ident (Sum256 c (frame32 (produced rnd))),
                Type = ty, Created = now\<rparr> = Inr v
        \<longrightarrow> (\<exists>db2. Create c rnd now ident ty (fst (Delete c ident db)) =
                     (db2, Some (Sprintf_s_x ident (frame32 (produced rnd))), None)
                  \<and> map_of (entries db2) k = Some v))"
proof -
  from assms(1) have valid: "validIDRegexp_MatchString ident"
    by (simp add: validID_iff_spec)
  have del: "Delete c ident db = (DB_Delete k db, None)"
    using valid assms(2) by (simp add: Delete_def)
  have never: "snd (Delete c other db) \<noteq> Some ErrNoMatchID"
    by (simp add: Delete_def split: sum.splits)
  have gone: "map_of (entries (DB_Delete k db)) k = None"
    by (simp add: entries_DB_Delete)
  have tr: "calls (DB_Delete k db) = calls db @ [Call_Delete k]"
    by (simp add: DB_Delete_def)
  have again: "\<exists>db2. Create c rnd now ident ty (DB_Delete k db) =
                     (db2, Some (Sprintf_s_x ident (frame32 (produced rnd))), None)
                  \<and> map_of (entries db2) k = Some v"
    if "32 \<le> length (produced rnd)"
      and "json_Marshal_Token c
               \<lparr>ID = ident, Token = Sprintf_s_x ident (Sum256 c (frame32 (produced rnd))),
                Type = ty, Created = now\<rparr> = Inr v"
    using Create_succeeds [OF valid assms(2) gone that] by (simp add: entries_DB_Set)
  from del never tr again show ?thesis by simp
qed

theorem Delete_then_Create_witness:
  "spec_id_pattern ''alice''
   \<and> json_Marshal_string sample ''alice'' = Inr (quoted ''alice'')
   \<and> snd (Delete sample ''alice'' empty_DB) = None
   \<and> calls (fst (Delete sample ''alice'' empty_DB)) = calls empty_DB @ [Call_Delete (quoted ''alice'')]
   \<and> 32 \<le> length (produced full_source)
   \<and> json_Marshal_Token sample
        \<lparr>ID = ''alice'',
         Token = Sprintf_s_x ''alice'' (Sum256 sample (frame32 (produced full_source))),
         Type = ''client'', Created = 1000\<rparr> = Inr alice_json
   \<and> (\<exists>db2. Create sample full_source 1000 ''alice'' ''client'' (fst (Delete sample ''alice'' empty_DB)) =
               (db2, Some (Sprintf_s_x ''alice'' (frame32 (produced full_source))), None)
            \<and> map_of (entries db2) (quoted ''alice'') = Some alice_json)"
proof -
  have f: "32 \<le> length (produced full_source)"
    by (simp add: full_source_def)
  have m: "json_Marshal_Token sample
             \<lparr>ID = ''alice'',
              Token = Sprintf_s_x ''alice'' (Sum256 sample (frame32 (produced full_source))),
              Type = ''client'', Created = 1000\<rparr> = Inr alice_json"
    using marshal_alice by (simp add: full_source_secret alice_token_def)
  from Delete_then_Create [OF spec_alice key_alice, of empty_DB "''alice''" full_source "''client''" 1000 alice_json]
    f m spec_alice key_alice
  show ?thesis by blast
qed

subsection \<open>Rejected identifiers\<close>

text \<open>
  Claim C8. \<^verbatim>\<open>Create\<close>, \<^verbatim>\<open>Check\<close> and \<^verbatim>\<open>Delete\<close> return the invalid-ID error
  exactly when the identifier does not match \<^verbatim>\<open>^[A-Za-z0-9_-]+$\<close>; then the
  database is returned as it was, with no call made on it. \<open>bad id!\<close> and the
  empty string are rejected.
\<close>

theorem InvalidID_exactly:
  "(\<not> spec_id_pattern ident \<longrightarrow>
      Create c rnd now ident ty db = (db, None, Some ErrBadID)
      \<and> Check c ident secret db = (db, False, Some ErrBadID)
      \<and> Delete c ident db = (db, Some ErrBadID))
   \<and> (spec_id_pattern ident \<longrightarrow>
      snd (snd (Create c rnd now ident ty db)) \<noteq> Some ErrBadID
      \<and> snd (snd (Check c ident secret db)) \<noteq> Some ErrBadID
      \<and> snd (Delete c ident db) \<noteq> Some ErrBadID)
   \<and> Create c rnd now ''bad id!'' ty db = (db, None, Some ErrBadID)
   \<and> Create c rnd now [] ty db = (db, None, Some ErrBadID)"
proof -
  have bad: "\<not> validIDRegexp_MatchString ''bad id!''"
    by (simp add: validIDRegexp_MatchString_def perl_word_char_def less_eq_char_def)
  have empty: "\<not> validIDRegexp_MatchString []"
    by (simp add: validIDRegexp_MatchString_def)
  have invalid: "Create c rnd now i ty db = (db, None, Some ErrBadID)
      \<and> Check c i secret db = (db, False, Some ErrBadID)
      \<and> Delete c i db = (db, Some ErrBadID)" if "\<not> validIDRegexp_MatchString i" for i
    using that by (simp add: Create_def Check_def Delete_def)
  have create: "snd (snd (Create c rnd now ident ty db)) \<noteq> Some ErrBadID"
    if "validIDRegexp_MatchString ident"
    using that
    by (auto simp: Create_def DB_Get_def Let_def split: if_splits sum.splits prod.splits option.splits)
  have check: "snd (snd (Check c ident secret db)) \<noteq> Some ErrBadID"
    if "validIDRegexp_MatchString ident"
    using that
    by (simp add: Check_def DB_Get_def Let_def split: sum.splits option.splits)
  have delete: "snd (Delete c ident db) \<noteq> Some ErrBadID"
    if "validIDRegexp_MatchString ident"
    using that by (simp add: Delete_def split: sum.splits)
  show ?thesis
    using invalid [of ident] invalid [OF bad] invalid [OF empty] create check delete
    by (simp add: validID_iff_spec)
qed

theorem InvalidID_exactly_witness:
  "\<not> spec_id_pattern ''bad id!'' \<and> spec_id_pattern ''alice''
   \<and> Create sample full_source 1000 ''bad id!'' ''client'' alice_DB = (alice_DB, None, Some ErrBadID)
   \<and> Check sample ''bad id!'' alice_secret alice_DB = (alice_DB, False, Some ErrBadID)
   \<and> Delete sample ''bad id!'' alice_DB = (alice_DB, Some ErrBadID)
   \<and> snd (snd (Create sample full_source 1000 ''alice'' ''client'' alice_DB)) \<noteq> Some ErrBadID
   \<and> snd (snd (Check sample ''alice'' alice_secret alice_DB)) \<noteq> Some ErrBadID
   \<and> snd (Delete sample ''alice'' alice_DB) \<noteq> Some ErrBadID"
proof -
  have bad: "\<not> spec_id_pattern ''bad id!''"
    by (simp add: spec_id_pattern_def spec_id_alphabet_def)
  from InvalidID_exactly [of "''bad id!''" sample full_source 1000 "''client''" alice_DB alice_secret]
    InvalidID_exactly [of "''alice''" sample full_source 1000 "''client''" alice_DB alice_secret]
    bad spec_alice
  show ?thesis by blast
qed

subsection \<open>Framing of the secret\<close>

text \<open>
  Claim C9. \<^verbatim>\<open>Check\<close> accepts a secret of any length. What it hashes is the secret
  copied into a zeroed 32-byte buffer, which is the secret cut to its first 32 bytes and
  followed by zero bytes up to 32: for an identifier that matches the pattern and has a
  record, \<^verbatim>\<open>Check\<close> returns no error and answers true exactly when the stored digest
  is \<^verbatim>\<open><id>:<hex of the hash of the framed secret>\<close>, whatever the hash function is.
  So \<^verbatim>\<open>Check\<close> on a secret and on its framing agree.
\<close>

theorem Check_frames_secret:
  "go_copy zero_buf s = frame32 s
   \<and> frame32 s = take 32 s @ replicate (32 - length s) 0
   \<and> length (frame32 s) = 32
   \<and> Check c ident s db = Check c ident (frame32 s) db
   \<and> (spec_id_pattern ident \<and> json_Marshal_string c ident = Inr k
        \<and> map_of (entries db) k = Some v \<and> json_Unmarshal_Token c v = Inr t
      \<longrightarrow> Check c ident s db =
            (db\<lparr>calls := calls db @ [Call_Get k]\<rparr>,
             Token t = Sprintf_s_x ident (Sum256 c (frame32 s)), None))"
proof -
  have a: "go_copy zero_buf s = frame32 s"
    by (rule go_copy_zero_buf)
  have b: "frame32 s = take 32 s @ replicate (32 - length s) 0"
    by (simp add: frame32_def)
  have c: "length (frame32 s) = 32"
    by (rule length_frame32)
  have "frame32 (frame32 s) = frame32 s"
    using c by (rule frame32_id)
  then have d: "Check c ident s db = Check c ident (frame32 s) db"
    by (simp add: Check_def go_copy_zero_buf)
  have e: "Check c ident s db =
            (db\<lparr>calls := calls db @ [Call_Get k]\<rparr>,
             Token t = Sprintf_s_x ident (Sum256 c (frame32 s)), None)"
    if "spec_id_pattern ident" and "json_Marshal_string c ident = Inr k"
      and "map_of (entries db) k = Some v" and "json_Unmarshal_Token c v = Inr t"
    using that
    by (simp add: validID_iff_spec [symmetric] Check_def DB_Get_def go_copy_zero_buf Let_def)
  from a b c d e show ?thesis by blast
qed

theorem Check_frames_secret_witness:
  "go_copy zero_buf [1, 2, 3] = [1, 2, 3] @ replicate 29 0
   \<and> Check sample ''bob'' [1, 2, 3] bob_DB = Check sample ''bob'' ([1, 2, 3] @ replicate 29 0) bob_DB
   \<and> spec_id_pattern ''bob''
   \<and> json_Marshal_string sample ''bob'' = Inr (quoted ''bob'')
   \<and> map_of (entries bob_DB) (quoted ''bob'') = Some bob_json
   \<and> json_Unmarshal_Token sample bob_json = Inr bob_token
   \<and> snd (Check sample ''bob'' [1, 2, 3] bob_DB) = (True, None)
   \<and> snd (Check sample ''bob'' [1, 2, 4] bob_DB) = (False, None)
   \<and> spec_id_pattern ''alice''
   \<and> json_Marshal_string sample ''alice'' = Inr (quoted ''alice'')
   \<and> map_of (entries alice_DB) (quoted ''alice'') = Some alice_json
   \<and> json_Unmarshal_Token sample alice_json = Inr alice_token
   \<and> snd (Check sample ''alice'' (alice_secret @ [7, 7]) alice_DB) = (True, None)"
proof -
  have pb: "spec_id_pattern ''bob''"
    by (simp add: spec_id_pattern_def spec_id_alphabet_def)
  have kb: "json_Marshal_string sample ''bob'' = Inr (quoted ''bob'')"
    by (simp add: sample_def)
  have sb: "map_of (entries bob_DB) (quoted ''bob'') = Some bob_json"
    by (simp add: bob_DB_def)
  have f3: "frame32 [1, 2, 3] = bob_secret"
    by (simp add: frame32_def bob_secret_def)
  have f4: "Sum256 sample (frame32 [1, 2, 4]) \<noteq> Sum256 sample bob_secret"
    by code_simp
  have fa: "frame32 (alice_secret @ [7, 7]) = alice_secret"
    by (simp add: frame32_def length_alice_secret)
  have tb: "Token bob_token = Sprintf_s_x ''bob'' (Sum256 sample bob_secret)"
    by (simp add: bob_token_def)
  have ta: "Token alice_token = Sprintf_s_x ''alice'' (Sum256 sample alice_secret)"
    by (simp add: alice_token_def)
  note th3 = Check_frames_secret [of "[1, 2, 3]" sample "''bob''" bob_DB "quoted ''bob''" bob_json bob_token]
  note th4 = Check_frames_secret [of "[1, 2, 4]" sample "''bob''" bob_DB "quoted ''bob''" bob_json bob_token]
  note tha = Check_frames_secret [of "alice_secret @ [7, 7]" sample "''alice''" alice_DB
      "quoted ''alice''" alice_json alice_token]
  from th3 have "go_copy zero_buf [1, 2, 3] = frame32 [1, 2, 3]"
    by blast
  with f3 have w1: "go_copy zero_buf [1, 2, 3] = [1, 2, 3] @ replicate 29 0"
    by (simp add: bob_secret_def)
  from th3 have "Check sample ''bob'' [1, 2, 3] bob_DB = Check sample ''bob'' (frame32 [1, 2, 3]) bob_DB"
    by blast
  with f3 have w2: "Check sample ''bob'' [1, 2, 3] bob_DB =
      Check sample ''bob'' ([1, 2, 3] @ replicate 29 0) bob_DB"
    by (simp add: bob_secret_def)
  from th3 pb kb sb unmarshal_bob
  have "Check sample ''bob'' [1, 2, 3] bob_DB =
          (bob_DB\<lparr>calls := calls bob_DB @ [Call_Get (quoted ''bob'')]\<rparr>,
           Token bob_token = Sprintf_s_x ''bob'' (Sum256 sample (frame32 [1, 2, 3])), None)"
    by blast
  with f3 tb have w3: "snd (Check sample ''bob'' [1, 2, 3] bob_DB) = (True, None)"
    by simp
  from th4 pb kb sb unmarshal_bob
  have "Check sample ''bob'' [1, 2, 4] bob_DB =
          (bob_DB\<lparr>calls := calls bob_DB @ [Call_Get (quoted ''bob'')]\<rparr>,
           Token bob_token = Sprintf_s_x ''bob'' (Sum256 sample (frame32 [1, 2, 4])), None)"
    by blast
  moreover have "Sprintf_s_x ''bob'' (Sum256 sample bob_secret) \<noteq>
      Sprintf_s_x ''bob'' (Sum256 sample (frame32 [1, 2, 4]))"
    using f4 Sprintf_s_x_inject by metis
  ultimately have w4: "snd (Check sample ''bob'' [1, 2, 4] bob_DB) = (False, None)"
    using tb by simp
  from tha spec_alice key_alice stored_alice unmarshal_alice
  have "Check sample ''alice'' (alice_secret @ [7, 7]) alice_DB =
          (alice_DB\<lparr>calls := calls alice_DB @ [Call_Get (quoted ''alice'')]\<rparr>,
           Token alice_token =
             Sprintf_s_x ''alice'' (Sum256 sample (frame32 (alice_secret @ [7, 7]))), None)"
    by blast
  with fa ta have w5: "snd (Check sample ''alice'' (alice_secret @ [7, 7]) alice_DB) = (True, None)"
    by simp
  from w1 w2 w3 w4 w5 pb kb sb unmarshal_bob spec_alice key_alice stored_alice unmarshal_alice
  show ?thesis by simp
qed

subsection \<open>What Create leaves alone\<close>

text \<open>
  Claim C10. A \<^verbatim>\<open>Create\<close> that returns an issuance string changes the database only
  at the key that encodes the identifier: a lookup of any other key gives the same
  answer, absent or present with the same value, before and after.
\<close>

theorem Create_frame:
  assumes "Create c rnd now ident ty db = (db', Some issued, None)"
  shows "\<exists>k. json_Marshal_string c ident = Inr k
           \<and> (\<forall>k'. k' \<noteq> k \<longrightarrow> map_of (entries db') k' = map_of (entries db) k')"
proof -
  from Create_returns_token [OF assms] obtain k v where
    key: "json_Marshal_string c ident = Inr k"
    and db': "db' = DB_Set k v (db\<lparr>calls := calls db @ [Call_Get k]\<rparr>)"
    by blast
  have "map_of (entries db') k' = map_of (entries db) k'" if "k' \<noteq> k" for k'
    using that by (simp add: db' entries_DB_Set)
  with key show ?thesis by blast
qed

theorem Create_frame_witness:
  "Create sample full_source 1000 ''alice'' ''client'' empty_DB =
       (alice_DB, Some (Sprintf_s_x ''alice'' alice_secret), None)
   \<and> json_Marshal_string sample ''alice'' = Inr (quoted ''alice'')
   \<and> quoted ''bob'' \<noteq> quoted ''alice''
   \<and> map_of (entries alice_DB) (quoted ''bob'') = map_of (entries empty_DB) (quoted ''bob'')"
proof -
  have ne: "quoted ''bob'' \<noteq> quoted ''alice''"
    by (simp add: quoted_def)
  from Create_frame [OF Create_alice] key_alice ne
  have "map_of (entries alice_DB) (quoted ''bob'') = map_of (entries empty_DB) (quoted ''bob'')"
    by auto
  with Create_alice key_alice ne show ?thesis by simp
qed

end
